theory Spec2Isabelle
  imports Main
begin

section \<open>The image-caching service worker (sw.js)\<close>

text \<open>
  The worker is a single script of event handlers over the platform's cache storage.
  The model below follows the script top to bottom: the two constants, the two classifier
  functions, and the handlers for the install, activate, fetch and message events.
  What the platform supplies (the URL parser, the worker's own origin, the rule by which
  a request matches a cache entry, the outcome of a network fetch, the outcome of a
  cache write) is a parameter of the model.
\<close>

subsection \<open>Constants\<close>

definition CACHE_NAME :: string where
  "CACHE_NAME = ''yaki-image-cache-v1''"

definition ALLOWED_IMAGE_DOMAINS :: "string list" where
  "ALLOWED_IMAGE_DOMAINS =
     [''github.com'',
      ''raw.githubusercontent.com'',
      ''images.unsplash.com'',
      ''cdn.pixabay.com'',
      ''i.imgur.com'',
      ''res.cloudinary.com'',
      ''storage.googleapis.com'',
      ''firebasestorage.googleapis.com'',
      ''lh3.googleusercontent.com'']"

subsection \<open>Strings\<close>

text \<open>
  The three string methods the script calls. \<open>startsWith s p\<close> is \<open>s.startsWith(p)\<close>,
  \<open>includes_str s sub\<close> is \<open>s.includes(sub)\<close>, and \<open>toLowerCase\<close> is applied by the script
  to the path of a parsed URL only, which the parser has already percent-encoded down to
  ASCII; on those characters lowering the case moves \<open>A\<close>..\<open>Z\<close> to \<open>a\<close>..\<open>z\<close> and keeps
  everything else.
\<close>

fun startsWith :: "string \<Rightarrow> string \<Rightarrow> bool" where
  "startsWith s [] = True"
| "startsWith [] (p # ps) = False"
| "startsWith (c # cs) (p # ps) = (c = p \<and> startsWith cs ps)"

fun includes_str :: "string \<Rightarrow> string \<Rightarrow> bool" where
  "includes_str [] sub = (sub = [])"
| "includes_str (c # cs) sub = (startsWith (c # cs) sub \<or> includes_str cs sub)"

definition toLowerChar :: "char \<Rightarrow> char" where
  "toLowerChar c =
     (let n = (of_char c :: nat) in if 65 \<le> n \<and> n \<le> 90 then char_of (n + 32) else c)"

definition toLowerCase :: "string \<Rightarrow> string" where
  "toLowerCase s = map toLowerChar s"

text \<open>\<open>s.substring(0, 80) + '...'\<close>, the form in which the script logs a URL.\<close>

definition shortened :: "string \<Rightarrow> string" where
  "shortened s = take 80 s @ ''...''"

subsection \<open>Requests, URLs, responses\<close>

text \<open>
  Of a request the script reads \<open>method\<close> (\<open>method_of\<close> here), \<open>url\<close> and
  \<open>destination\<close>; of a parsed URL it reads \<open>origin\<close>, \<open>hostname\<close> and \<open>pathname\<close>;
  of a response it reads \<open>status\<close>. The script never reads a request's headers, but it
  hands the whole request to \<open>caches.match\<close> and \<open>cache.put\<close>, which do.
\<close>

record request =
  method_of :: string
  url :: string
  destination :: string
  req_headers :: "(string \<times> string) list"

record URL =
  origin :: string
  hostname :: string
  pathname :: string

record response =
  status :: nat
  headers :: "(string \<times> string) list"
  body :: string

text \<open>
  The platform as the script sees it: \<open>new URL(s)\<close>, which throws a \<open>TypeError\<close> on a
  string that is not a URL (\<open>None\<close> here); \<open>self.location.origin\<close>; and the rule by
  which the cache storage decides, with the default options the script leaves in place,
  whether a request matches a stored entry. \<open>requestMatches P req q r\<close> says that the
  request \<open>req\<close> matches the entry stored under the request \<open>q\<close> with the response \<open>r\<close>;
  the platform compares the URLs without their fragments and honours the \<open>Vary\<close> header
  of the stored response.
\<close>

record platform =
  parseURL :: "string \<Rightarrow> URL option"
  self_origin :: string
  requestMatches :: "request \<Rightarrow> request \<Rightarrow> response \<Rightarrow> bool"

datatype error = TypeError

subsection \<open>Classifier\<close>

definition imageExtensions :: "string list" where
  "imageExtensions =
     [''.jpg'', ''.jpeg'', ''.png'', ''.gif'', ''.webp'', ''.svg'', ''.ico'', ''.bmp'']"

text \<open>
  \<open>isImageRequest\<close> constructs the URL on its first line, outside any \<open>try\<close>, so the
  parser's exception leaves the function before the destination is looked at.
\<close>

definition isImageRequest :: "platform \<Rightarrow> request \<Rightarrow> error + bool" where
  "isImageRequest P req =
     (case parseURL P (url req) of
        None \<Rightarrow> Inl TypeError
      | Some u \<Rightarrow>
          if destination req = ''image'' then Inr True
          else Inr (list_ex (\<lambda>ext. includes_str (toLowerCase (pathname u)) ext) imageExtensions))"

text \<open>\<open>isAllowedDomain\<close> wraps its whole body in \<open>try\<close>/\<open>catch\<close> and answers \<open>false\<close> there.\<close>

definition isAllowedDomain :: "platform \<Rightarrow> string \<Rightarrow> bool" where
  "isAllowedDomain P s =
     (case parseURL P s of
        None \<Rightarrow> False
      | Some urlObj \<Rightarrow>
          if origin urlObj = self_origin P then True
          else list_ex (\<lambda>domain. includes_str (hostname urlObj) domain) ALLOWED_IMAGE_DOMAINS)"

subsection \<open>Cache storage\<close>

text \<open>
  The platform's \<open>caches\<close> object is a list of named caches in creation order, and a
  cache is a list of entries in insertion order. An entry is the request it was stored
  under together with the response.
\<close>

type_synonym cache = "(request \<times> response) list"

type_synonym cache_storage = "(string \<times> cache) list"

text \<open>
  \<open>cache.match(request)\<close> answers with the response of the first entry the request
  matches, by the platform's rule.
\<close>

fun cache_match :: "platform \<Rightarrow> cache \<Rightarrow> request \<Rightarrow> response option" where
  "cache_match P [] req = None"
| "cache_match P ((q, r) # rest) req =
     (if requestMatches P req q r then Some r else cache_match P rest req)"

text \<open>\<open>caches.match(request)\<close> asks every cache in creation order; the first answer wins.\<close>

fun caches_match :: "platform \<Rightarrow> cache_storage \<Rightarrow> request \<Rightarrow> response option" where
  "caches_match P [] req = None"
| "caches_match P ((name, c) # rest) req =
     (case cache_match P c req of Some r \<Rightarrow> Some r | None \<Rightarrow> caches_match P rest req)"

definition caches_keys :: "cache_storage \<Rightarrow> string list" where
  "caches_keys st = map fst st"

definition cache_keys :: "cache \<Rightarrow> request list" where
  "cache_keys c = map fst c"

text \<open>\<open>caches.open(name)\<close> creates the cache when there is none of that name.\<close>

definition caches_open :: "cache_storage \<Rightarrow> string \<Rightarrow> cache_storage" where
  "caches_open st name = (if name \<in> set (caches_keys st) then st else st @ [(name, [])])"

definition cache_of :: "cache_storage \<Rightarrow> string \<Rightarrow> cache" where
  "cache_of st name = (case map_of st name of Some c \<Rightarrow> c | None \<Rightarrow> [])"

text \<open>
  \<open>cache.put(request, response)\<close> removes every entry the request matches, by the same
  rule, and appends the new entry.
\<close>

definition cache_put :: "platform \<Rightarrow> cache \<Rightarrow> request \<Rightarrow> response \<Rightarrow> cache" where
  "cache_put P c req r = filter (\<lambda>(q, v). \<not> requestMatches P req q v) c @ [(req, r)]"

definition caches_put ::
  "platform \<Rightarrow> cache_storage \<Rightarrow> string \<Rightarrow> request \<Rightarrow> response \<Rightarrow> cache_storage" where
  "caches_put P st name req r =
     map (\<lambda>(n, c). if n = name then (n, cache_put P c req r) else (n, c)) st"

definition caches_delete :: "cache_storage \<Rightarrow> string \<Rightarrow> cache_storage" where
  "caches_delete st name = filter (\<lambda>(n, c). n \<noteq> name) st"

subsection \<open>What a handler does besides returning\<close>

text \<open>
  Every call the script makes on the console, the network, a cache entry, the message
  channel and the worker's lifecycle is recorded, in order, in a list of effects.
\<close>

datatype log_msg =
    Installed
  | Activated
  | DeletingOldCache string
  | FromCache string
  | Cached string
  | FetchFailed
  | ImageCacheCleared

datatype reply = CacheCleared | CacheStats nat

datatype effect =
    Console_log log_msg
  | Console_error log_msg
  | Network_fetch request
  | Cache_put string request response
  | Post_message reply
  | Skip_waiting
  | Clients_claim

subsection \<open>Install and activate\<close>

definition install_handler :: "effect list" where
  "install_handler = [Console_log Installed, Skip_waiting]"

text \<open>
  The activate handler lists the cache names, keeps those that start with
  \<open>yaki-image-cache-\<close> and are not \<open>CACHE_NAME\<close>, and deletes each of them.
\<close>

definition old_caches :: "string list \<Rightarrow> string list" where
  "old_caches cacheNames =
     filter (\<lambda>name. startsWith name ''yaki-image-cache-'' \<and> name \<noteq> CACHE_NAME) cacheNames"

definition activate_handler :: "cache_storage \<Rightarrow> cache_storage \<times> effect list" where
  "activate_handler st =
     (let old = old_caches (caches_keys st)
      in (fold (\<lambda>name s. caches_delete s name) old st,
          [Console_log Activated] @ map (\<lambda>name. Console_log (DeletingOldCache name)) old
            @ [Clients_claim]))"

subsection \<open>Fetch\<close>

text \<open>
  The two things the platform decides during a fetch event: how the network call ends
  (it rejects, or it resolves with a response, which the script also tests for absence),
  and how the detached cache write ends (\<open>caches.open\<close> rejects, \<open>cache.put\<close> rejects
  for whatever reason the platform has, or the entry is written).
\<close>

datatype fetch_result = Rejected | Resolved "response option"

datatype write_result = OpenRejected | PutRejected | Written

text \<open>
  What the event ends with: the listener returned without calling \<open>respondWith\<close>, the
  listener threw, or the promise given to \<open>respondWith\<close> resolved with a value.
\<close>

datatype outcome = NotIntercepted | Threw error | Responded "response option"

text \<open>\<open>new Response('', { status: 404 })\<close>; a string body carries its content type.\<close>

definition synthetic_404 :: response where
  "synthetic_404 =
     \<lparr>status = 404, headers = [(''content-type'', ''text/plain;charset=UTF-8'')], body = []\<rparr>"

definition clone :: "response \<Rightarrow> response" where
  "clone r = r"

text \<open>
  \<open>caches.open(CACHE_NAME).then(cache => { cache.put(...); console.log(...) })\<close>. Nothing
  waits for this chain and nothing catches its rejection. The promise of \<open>cache.put\<close> is
  dropped, so the line after it logs whether or not the entry gets written.
\<close>

definition store_response ::
  "platform \<Rightarrow> write_result \<Rightarrow> cache_storage \<Rightarrow> request \<Rightarrow> response
     \<Rightarrow> cache_storage \<times> effect list" where
  "store_response P wr st req r =
     (case wr of
        OpenRejected \<Rightarrow> (st, [])
      | PutRejected \<Rightarrow>
          (caches_open st CACHE_NAME,
           [Cache_put CACHE_NAME req r, Console_log (Cached (shortened (url req)))])
      | Written \<Rightarrow>
          (caches_put P (caches_open st CACHE_NAME) CACHE_NAME req r,
           [Cache_put CACHE_NAME req r, Console_log (Cached (shortened (url req)))]))"

text \<open>The callback of \<open>fetch(request).then\<close>.\<close>

definition on_network_response ::
  "platform \<Rightarrow> write_result \<Rightarrow> cache_storage \<Rightarrow> request \<Rightarrow> response option
     \<Rightarrow> outcome \<times> cache_storage \<times> effect list" where
  "on_network_response P wr st req networkResponse =
     (case networkResponse of
        None \<Rightarrow> (Responded None, st, [])
      | Some r \<Rightarrow>
          if status r \<noteq> 200 then (Responded (Some r), st, [])
          else if isAllowedDomain P (url req) \<or> startsWith (url req) (self_origin P) then
            (let (st', es) = store_response P wr st req (clone r)
             in (Responded (Some r), st', es))
          else (Responded (Some r), st, []))"

text \<open>The miss branch: the network call, its \<open>then\<close> and its \<open>catch\<close>.\<close>

definition on_cache_miss ::
  "platform \<Rightarrow> (request \<Rightarrow> fetch_result) \<Rightarrow> write_result \<Rightarrow> cache_storage \<Rightarrow> request
     \<Rightarrow> outcome \<times> cache_storage \<times> effect list" where
  "on_cache_miss P net wr st req =
     (case net req of
        Rejected \<Rightarrow>
          (Responded (Some synthetic_404), st, [Network_fetch req, Console_error FetchFailed])
      | Resolved networkResponse \<Rightarrow>
          (let (out, st', es) = on_network_response P wr st req networkResponse
           in (out, st', Network_fetch req # es)))"

text \<open>
  The fetch listener. The storage it returns is the storage once the detached write has
  settled; the outcome is fixed before that.
\<close>

definition fetch_handler ::
  "platform \<Rightarrow> (request \<Rightarrow> fetch_result) \<Rightarrow> write_result \<Rightarrow> cache_storage \<Rightarrow> request
     \<Rightarrow> outcome \<times> cache_storage \<times> effect list" where
  "fetch_handler P net wr st req =
     (if method_of req \<noteq> ''GET'' then (NotIntercepted, st, [])
      else
        (case isImageRequest P req of
           Inl e \<Rightarrow> (Threw e, st, [])
         | Inr False \<Rightarrow> (NotIntercepted, st, [])
         | Inr True \<Rightarrow>
             (case caches_match P st req of
                Some cachedResponse \<Rightarrow>
                  (Responded (Some cachedResponse), st,
                   [Console_log (FromCache (shortened (url req)))])
              | None \<Rightarrow> on_cache_miss P net wr st req)))"

definition outcome_of :: "outcome \<times> cache_storage \<times> effect list \<Rightarrow> outcome" where
  "outcome_of x = fst x"

definition storage_of :: "outcome \<times> cache_storage \<times> effect list \<Rightarrow> cache_storage" where
  "storage_of x = fst (snd x)"

definition effects_of :: "outcome \<times> cache_storage \<times> effect list \<Rightarrow> effect list" where
  "effects_of x = snd (snd x)"

subsection \<open>Messages\<close>

text \<open>
  The message listener reads \<open>event.data.action\<close>; \<open>None\<close> stands for data that is
  absent or carries no action string. Its two \<open>if\<close> statements run one after the other.
\<close>

definition message_handler :: "cache_storage \<Rightarrow> string option \<Rightarrow> cache_storage \<times> effect list" where
  "message_handler st action =
     (let (st1, es1) =
            (if action = Some ''clearImageCache''
             then (caches_delete st CACHE_NAME,
                   [Console_log ImageCacheCleared, Post_message CacheCleared])
             else (st, []));
          (st2, es2) =
            (if action = Some ''getCacheStats''
             then (let st' = caches_open st1 CACHE_NAME
                   in (st', [Post_message (CacheStats (length (cache_keys (cache_of st' CACHE_NAME))))]))
             else (st1, []))
      in (st2, es1 @ es2))"

subsection \<open>An example platform\<close>

text \<open>
  A small parser for URLs of the shape \<open>https://host/path?query#fragment\<close>, used to run
  the model on concrete requests. It is one possible value of the \<open>parseURL\<close> parameter;
  no general theorem below depends on it.
\<close>

definition example_parseURL :: "string \<Rightarrow> URL option" where
  "example_parseURL s =
     (if startsWith s ''https://'' then
        (let rest = drop 8 s;
             in_host = (\<lambda>c. c \<noteq> CHR ''/'' \<and> c \<noteq> CHR ''?'' \<and> c \<noteq> CHR ''#'');
             in_path = (\<lambda>c. c \<noteq> CHR ''?'' \<and> c \<noteq> CHR ''#'');
             host = takeWhile in_host rest;
             path = takeWhile in_path (dropWhile in_host rest)
         in if host = [] then None
            else Some \<lparr>origin = ''https://'' @ host, hostname = host,
                       pathname = (if path = [] then ''/'' else path)\<rparr>)
      else None)"

text \<open>
  The matching rule of the cache storage with its default options, as one possible value
  of the \<open>requestMatches\<close> parameter: the request is a \<open>GET\<close>; the two URLs are equal once
  their fragments are cut off; and for every field name listed in the \<open>Vary\<close> header of
  the stored response, the name is not \<open>*\<close> and the stored request and the asking request
  carry the same combined value for that header (or both carry none).
\<close>

definition without_fragment :: "string \<Rightarrow> string" where
  "without_fragment s = takeWhile (\<lambda>c. c \<noteq> CHR ''#'') s"

definition header_values :: "(string \<times> string) list \<Rightarrow> string \<Rightarrow> string list" where
  "header_values hs name = map snd (filter (\<lambda>(n, v). toLowerCase n = toLowerCase name) hs)"

fun join_values :: "string list \<Rightarrow> string" where
  "join_values [] = []"
| "join_values [v] = v"
| "join_values (v # w # vs) = v @ '', '' @ join_values (w # vs)"

definition combined_value :: "(string \<times> string) list \<Rightarrow> string \<Rightarrow> string option" where
  "combined_value hs name =
     (case header_values hs name of [] \<Rightarrow> None | v # vs \<Rightarrow> Some (join_values (v # vs)))"

fun split_commas :: "string \<Rightarrow> string list" where
  "split_commas [] = [[]]"
| "split_commas (c # cs) =
     (if c = CHR '','' then [] # split_commas cs
      else (case split_commas cs of [] \<Rightarrow> [[c]] | w # ws \<Rightarrow> (c # w) # ws))"

definition trim :: "string \<Rightarrow> string" where
  "trim s =
     (let blank = (\<lambda>c. c = CHR '' '' \<or> c = CHR 0x09)
      in rev (dropWhile blank (rev (dropWhile blank s))))"

definition vary_fields :: "response \<Rightarrow> string list" where
  "vary_fields r = map trim (concat (map split_commas (header_values (headers r) ''vary'')))"

definition example_requestMatches :: "request \<Rightarrow> request \<Rightarrow> response \<Rightarrow> bool" where
  "example_requestMatches req q r =
     (method_of req = ''GET'' \<and>
      without_fragment (url req) = without_fragment (url q) \<and>
      list_all (\<lambda>f. f \<noteq> ''*'' \<and>
                    combined_value (req_headers q) f = combined_value (req_headers req) f)
        (vary_fields r))"

definition example_platform :: platform where
  "example_platform =
     \<lparr>parseURL = example_parseURL, self_origin = ''https://shop.example'',
      requestMatches = example_requestMatches\<rparr>"

subsection \<open>Example requests and responses\<close>

text \<open>Concrete inputs on which the handlers are run below.\<close>

definition photo_request :: request where
  "photo_request =
     \<lparr>method_of = ''GET'', url = ''https://cdn.example/img/Photo.PNG.bak'', destination = [],
      req_headers = [(''accept'', ''image/png'')]\<rparr>"

definition photo_request_fragment :: request where
  "photo_request_fragment =
     \<lparr>method_of = ''GET'', url = ''https://cdn.example/img/Photo.PNG.bak#zoom'', destination = [],
      req_headers = [(''accept'', ''image/png'')]\<rparr>"

definition photo_request_webp :: request where
  "photo_request_webp =
     \<lparr>method_of = ''GET'', url = ''https://cdn.example/img/Photo.PNG.bak'', destination = [],
      req_headers = [(''accept'', ''image/webp'')]\<rparr>"

definition github_request :: request where
  "github_request =
     \<lparr>method_of = ''GET'', url = ''https://raw.githubusercontent.com/yaki/menu/tea.png'',
      destination = ''image'', req_headers = []\<rparr>"

definition shop_request :: request where
  "shop_request =
     \<lparr>method_of = ''GET'', url = ''https://shop.example/img/logo.svg'', destination = ''image'',
      req_headers = []\<rparr>"

text \<open>
  A host of another origin whose URL begins with the characters of the worker's origin
  \<open>https://shop.example\<close>.
\<close>

definition lookalike_request :: request where
  "lookalike_request =
     \<lparr>method_of = ''GET'', url = ''https://shop.example.evil.com/a.png'', destination = ''image'',
      req_headers = []\<rparr>"

definition malformed_request :: request where
  "malformed_request =
     \<lparr>method_of = ''GET'', url = ''not a url'', destination = ''image'', req_headers = []\<rparr>"

definition ok_response :: response where
  "ok_response = \<lparr>status = 200, headers = [(''content-type'', ''image/png'')], body = ''PNG''\<rparr>"

definition negotiated_response :: response where
  "negotiated_response =
     \<lparr>status = 200, headers = [(''content-type'', ''image/png''), (''Vary'', ''Accept'')],
      body = ''PNG''\<rparr>"

definition moved_response :: response where
  "moved_response = \<lparr>status = 302, headers = [(''location'', ''/elsewhere'')], body = []\<rparr>"

section \<open>Properties of the string helpers\<close>

lemma startsWith_iff: "startsWith s p \<longleftrightarrow> (\<exists>ss. s = p @ ss)"
  by (induction s p rule: startsWith.induct) auto

lemma includes_str_iff: "includes_str s sub \<longleftrightarrow> (\<exists>ps ss. s = ps @ sub @ ss)"
proof (induction s)
  case Nil
  show ?case by auto
next
  case (Cons c cs)
  show ?case
  proof
    assume "includes_str (c # cs) sub"
    then consider "startsWith (c # cs) sub" | "includes_str cs sub" by auto
    then show "\<exists>ps ss. c # cs = ps @ sub @ ss"
    proof cases
      case 1
      then obtain ss where "c # cs = sub @ ss" by (auto simp: startsWith_iff)
      then have "c # cs = [] @ sub @ ss" by simp
      then show ?thesis by blast
    next
      case 2
      then obtain ps ss where "cs = ps @ sub @ ss" using Cons.IH by blast
      then have "c # cs = (c # ps) @ sub @ ss" by simp
      then show ?thesis by blast
    qed
  next
    assume "\<exists>ps ss. c # cs = ps @ sub @ ss"
    then obtain ps ss where eq: "c # cs = ps @ sub @ ss" by blast
    show "includes_str (c # cs) sub"
    proof (cases ps)
      case Nil
      with eq have "startsWith (c # cs) sub" by (auto simp: startsWith_iff)
      then show ?thesis by simp
    next
      case (Cons p ps')
      with eq have "cs = ps' @ sub @ ss" by simp
      then have "includes_str cs sub" using Cons.IH by blast
      then show ?thesis by simp
    qed
  qed
qed

lemma list_ex_includes_iff:
  "list_ex (\<lambda>x. includes_str s x) xs \<longleftrightarrow> (\<exists>x \<in> set xs. \<exists>ps ss. s = ps @ x @ ss)"
  by (simp add: list_ex_iff includes_str_iff)

section \<open>The classifier\<close>

text \<open>
  Claim C2. On a request whose URL parses, \<open>isImageRequest\<close> returns \<open>true\<close> exactly
  when the destination is \<open>image\<close> or the lower-cased path has one of the eight
  extensions \<open>.jpg .jpeg .png .gif .webp .svg .ico .bmp\<close> somewhere inside it, with
  anything before and anything after.
\<close>

theorem isImageRequest_iff:
  assumes "parseURL P (url req) = Some u"
  shows "isImageRequest P req =
           Inr (destination req = ''image'' \<or>
                (\<exists>ext \<in> {''.jpg'', ''.jpeg'', ''.png'', ''.gif'', ''.webp'', ''.svg'', ''.ico'', ''.bmp''}.
                   \<exists>ps ss. toLowerCase (pathname u) = ps @ ext @ ss))"
proof -
  let ?p = "toLowerCase (pathname u)"
  have exts: "set imageExtensions =
      {''.jpg'', ''.jpeg'', ''.png'', ''.gif'', ''.webp'', ''.svg'', ''.ico'', ''.bmp''}"
    unfolding imageExtensions_def by (simp only: list.set)
  have "list_ex (\<lambda>ext. includes_str ?p ext) imageExtensions
          \<longleftrightarrow> (\<exists>ext \<in> set imageExtensions. \<exists>ps ss. ?p = ps @ ext @ ss)"
    by (rule list_ex_includes_iff)
  then show ?thesis
    using assms unfolding exts by (simp add: isImageRequest_def)
qed

text \<open>
  The path \<open>/img/Photo.PNG.bak\<close> carries \<open>.png\<close> in the middle and in upper case; the
  request has no destination hint and is classified as an image all the same.
\<close>

theorem isImageRequest_iff_witness:
  "parseURL example_platform (url photo_request) =
     Some \<lparr>origin = ''https://cdn.example'', hostname = ''cdn.example'',
           pathname = ''/img/Photo.PNG.bak''\<rparr> \<and>
   destination photo_request \<noteq> ''image'' \<and>
   toLowerCase ''/img/Photo.PNG.bak'' = ''/img/photo'' @ ''.png'' @ ''.bak'' \<and>
   isImageRequest example_platform photo_request = Inr True"
proof -
  let ?u = "\<lparr>origin = ''https://cdn.example'', hostname = ''cdn.example'',
             pathname = ''/img/Photo.PNG.bak''\<rparr>"
  have h: "parseURL example_platform (url photo_request) = Some ?u"
    by code_simp
  have d: "destination photo_request \<noteq> ''image''"
    by (simp add: photo_request_def)
  have low: "toLowerCase ''/img/Photo.PNG.bak'' = ''/img/photo'' @ ''.png'' @ ''.bak''"
    by code_simp
  then have "\<exists>ps ss. toLowerCase (pathname ?u) = ps @ ''.png'' @ ss"
    unfolding URL.simps by blast
  then have "isImageRequest example_platform photo_request = Inr True"
    using isImageRequest_iff [OF h] by simp
  with h d low show ?thesis by blast
qed

text \<open>
  Claim C3. \<open>isAllowedDomain\<close> answers \<open>false\<close> on a string that does not parse,
  \<open>true\<close> when the parsed origin is the worker's own, and otherwise \<open>true\<close> exactly when
  the parsed hostname has one of the configured domains somewhere inside it.
\<close>

theorem isAllowedDomain_cases:
  "(parseURL P s = None \<longrightarrow> \<not> isAllowedDomain P s) \<and>
   (\<forall>u. parseURL P s = Some u \<and> origin u = self_origin P \<longrightarrow> isAllowedDomain P s) \<and>
   (\<forall>u. parseURL P s = Some u \<and> origin u \<noteq> self_origin P \<longrightarrow>
      (isAllowedDomain P s \<longleftrightarrow>
         (\<exists>d \<in> set ALLOWED_IMAGE_DOMAINS. \<exists>ps ss. hostname u = ps @ d @ ss)))"
  by (simp add: isAllowedDomain_def list_ex_includes_iff)

text \<open>One URL for each case, and one foreign host that matches no configured domain.\<close>

theorem isAllowedDomain_cases_witness:
  "(parseURL example_platform ''not a url'' = None \<and>
      \<not> isAllowedDomain example_platform ''not a url'') \<and>
   (parseURL example_platform ''https://shop.example/logo'' =
        Some \<lparr>origin = ''https://shop.example'', hostname = ''shop.example'', pathname = ''/logo''\<rparr> \<and>
      isAllowedDomain example_platform ''https://shop.example/logo'') \<and>
   (parseURL example_platform ''https://github.com.evil.net/x'' =
        Some \<lparr>origin = ''https://github.com.evil.net'', hostname = ''github.com.evil.net'',
              pathname = ''/x''\<rparr> \<and>
      isAllowedDomain example_platform ''https://github.com.evil.net/x'') \<and>
   (parseURL example_platform ''https://cdn.example/x'' =
        Some \<lparr>origin = ''https://cdn.example'', hostname = ''cdn.example'', pathname = ''/x''\<rparr> \<and>
      \<not> isAllowedDomain example_platform ''https://cdn.example/x'')"
proof -
  have p1: "parseURL example_platform ''not a url'' = None"
    by code_simp
  have p2: "parseURL example_platform ''https://shop.example/logo'' =
        Some \<lparr>origin = ''https://shop.example'', hostname = ''shop.example'', pathname = ''/logo''\<rparr>"
    by code_simp
  have p3: "parseURL example_platform ''https://github.com.evil.net/x'' =
        Some \<lparr>origin = ''https://github.com.evil.net'', hostname = ''github.com.evil.net'',
              pathname = ''/x''\<rparr>"
    by code_simp
  have p4: "parseURL example_platform ''https://cdn.example/x'' =
        Some \<lparr>origin = ''https://cdn.example'', hostname = ''cdn.example'', pathname = ''/x''\<rparr>"
    by code_simp
  have o: "self_origin example_platform = ''https://shop.example''"
    by (simp add: example_platform_def)
  have a1: "\<not> isAllowedDomain example_platform ''not a url''"
    using isAllowedDomain_cases [of example_platform "''not a url''"] p1 by blast
  have a2: "isAllowedDomain example_platform ''https://shop.example/logo''"
    using isAllowedDomain_cases [of example_platform "''https://shop.example/logo''"] p2 o
    by simp
  have "''github.com'' \<in> set ALLOWED_IMAGE_DOMAINS"
    by (simp add: ALLOWED_IMAGE_DOMAINS_def)
  moreover have "''github.com.evil.net'' = [] @ ''github.com'' @ ''.evil.net''"
    by simp
  ultimately have ex:
    "\<exists>d \<in> set ALLOWED_IMAGE_DOMAINS. \<exists>ps ss. ''github.com.evil.net'' = ps @ d @ ss"
    by blast
  have a3: "isAllowedDomain example_platform ''https://github.com.evil.net/x''"
    using isAllowedDomain_cases [of example_platform "''https://github.com.evil.net/x''"] p3 o ex
    by simp
  have a4: "\<not> isAllowedDomain example_platform ''https://cdn.example/x''"
    by code_simp
  from p1 p2 p3 p4 a1 a2 a3 a4 show ?thesis by blast
qed

text \<open>
  Claim C9, as the specification words it, wants \<open>isImageRequest\<close> never to throw, a
  malformed URL string included. The function parses the URL outside any \<open>try\<close>: on a
  string the parser refuses it throws, even when the destination says \<open>image\<close>.
\<close>

theorem isImageRequest_throws_on_malformed_url:
  "isImageRequest example_platform malformed_request = Inl TypeError"
  by code_simp

text \<open>
  Claim C9, amended. \<open>isImageRequest\<close> returns a boolean whenever the request's URL
  parses, and throws the parser's \<open>TypeError\<close> when it does not. It reads the request
  and nothing else: the model is a function of the platform and the request alone.
\<close>

theorem isImageRequest_returns_iff_url_parses:
  "(\<forall>u. parseURL P (url req) = Some u \<longrightarrow> (\<exists>b. isImageRequest P req = Inr b)) \<and>
   (parseURL P (url req) = None \<longrightarrow> isImageRequest P req = Inl TypeError)"
  by (auto simp: isImageRequest_def)

theorem isImageRequest_returns_iff_url_parses_witness:
  "(parseURL example_platform (url github_request) \<noteq> None \<and>
      (\<exists>b. isImageRequest example_platform github_request = Inr b)) \<and>
   (parseURL example_platform (url malformed_request) = None \<and>
      isImageRequest example_platform malformed_request = Inl TypeError)"
proof -
  have p1: "parseURL example_platform (url github_request) \<noteq> None"
    by code_simp
  have p2: "parseURL example_platform (url malformed_request) = None"
    by code_simp
  from p1 have r1: "\<exists>b. isImageRequest example_platform github_request = Inr b"
    using isImageRequest_returns_iff_url_parses [of example_platform github_request] by blast
  from p2 have r2: "isImageRequest example_platform malformed_request = Inl TypeError"
    using isImageRequest_returns_iff_url_parses [of example_platform malformed_request] by blast
  from p1 p2 r1 r2 show ?thesis by blast
qed

section \<open>The fetch handler\<close>

lemma cache_match_SomeD:
  "cache_match P c req = Some r \<Longrightarrow> \<exists>q. (q, r) \<in> set c \<and> requestMatches P req q r"
proof (induction c)
  case Nil
  then show ?case by simp
next
  case (Cons a c)
  obtain q v where a: "a = (q, v)" by (cases a)
  show ?case
  proof (cases "requestMatches P req q v")
    case True
    with Cons.prems a have "v = r" by simp
    with True a show ?thesis by auto
  next
    case False
    with Cons.prems a have "cache_match P c req = Some r" by simp
    then obtain q' where "(q', r) \<in> set c" and "requestMatches P req q' r"
      using Cons.IH by blast
    then show ?thesis by auto
  qed
qed

lemma cache_match_None_iff:
  "cache_match P c req = None \<longleftrightarrow> (\<forall>(q, r) \<in> set c. \<not> requestMatches P req q r)"
proof (induction c)
  case Nil
  show ?case by simp
next
  case (Cons a c)
  obtain q v where a: "a = (q, v)" by (cases a)
  from Cons.IH a show ?case by (cases "requestMatches P req q v") simp_all
qed

lemma caches_match_SomeD:
  "caches_match P st req = Some r \<Longrightarrow>
     \<exists>(n, c) \<in> set st. \<exists>q. (q, r) \<in> set c \<and> requestMatches P req q r"
proof (induction st)
  case Nil
  then show ?case by simp
next
  case (Cons a st)
  obtain n c where a: "a = (n, c)" by (cases a)
  show ?case
  proof (cases "cache_match P c req")
    case None
    with Cons a show ?thesis by auto
  next
    case (Some r')
    with Cons.prems a have "r' = r" by simp
    with Some obtain q where "(q, r) \<in> set c" and "requestMatches P req q r"
      using cache_match_SomeD by blast
    with a show ?thesis by auto
  qed
qed

lemma caches_match_None_iff:
  "caches_match P st req = None \<longleftrightarrow>
     (\<forall>(n, c) \<in> set st. \<forall>(q, r) \<in> set c. \<not> requestMatches P req q r)"
proof (induction st)
  case Nil
  show ?case by simp
next
  case (Cons a st)
  obtain n c where a: "a = (n, c)" by (cases a)
  have "cache_match P c req = None \<longleftrightarrow> (\<forall>(q, r) \<in> set c. \<not> requestMatches P req q r)"
    by (rule cache_match_None_iff)
  with Cons.IH a show ?case by (cases "cache_match P c req") auto
qed

lemma caches_match_stored:
  assumes "(name, c) \<in> set st" and "(q, r) \<in> set c" and "requestMatches P req q r"
  shows "\<exists>r'. caches_match P st req = Some r'"
proof (cases "caches_match P st req")
  case None
  with assms show ?thesis by (force simp: caches_match_None_iff)
next
  case (Some r')
  then show ?thesis by blast
qed

text \<open>
  Claim C4. When some cache holds an entry that an intercepted \<open>GET\<close> image request
  matches, the handler answers with the response of such an entry (the one
  \<open>caches.match\<close> finds), exactly as stored; it leaves the storage as it was and makes no
  network call: its only effect is the log line.
\<close>

theorem cache_hit_served_without_network:
  assumes "method_of req = ''GET''" and "isImageRequest P req = Inr True"
    and "(name, c) \<in> set st" and "(q, r) \<in> set c" and "requestMatches P req q r"
  shows "\<exists>r'. caches_match P st req = Some r' \<and>
              (\<exists>(n, c') \<in> set st. \<exists>q'. (q', r') \<in> set c' \<and> requestMatches P req q' r') \<and>
              fetch_handler P net wr st req =
                (Responded (Some r'), st, [Console_log (FromCache (shortened (url req)))]) \<and>
              (\<forall>x. Network_fetch x \<notin> set (effects_of (fetch_handler P net wr st req)))"
proof -
  from assms(3,4,5) obtain r' where hit: "caches_match P st req = Some r'"
    using caches_match_stored by blast
  have stored: "\<exists>(n, c') \<in> set st. \<exists>q'. (q', r') \<in> set c' \<and> requestMatches P req q' r'"
    using hit by (rule caches_match_SomeD)
  have run: "fetch_handler P net wr st req =
      (Responded (Some r'), st, [Console_log (FromCache (shortened (url req)))])"
    using assms(1,2) hit by (simp add: fetch_handler_def)
  have "\<forall>x. Network_fetch x \<notin> set (effects_of (fetch_handler P net wr st req))"
    by (simp add: run effects_of_def)
  with hit stored run show ?thesis by blast
qed

text \<open>
  The entry was stored under the URL without a fragment; the request carries one and
  matches it. The network would reject here; the stored response comes back and the
  network is never asked.
\<close>

theorem cache_hit_served_without_network_witness:
  "method_of photo_request_fragment = ''GET'' \<and>
   isImageRequest example_platform photo_request_fragment = Inr True \<and>
   requestMatches example_platform photo_request_fragment photo_request ok_response \<and>
   fetch_handler example_platform (\<lambda>x. Rejected) Written
       [(''yaki-image-cache-v1'', [(photo_request, ok_response)])] photo_request_fragment =
     (Responded (Some ok_response),
      [(''yaki-image-cache-v1'', [(photo_request, ok_response)])],
      [Console_log (FromCache (shortened (url photo_request_fragment)))])"
proof -
  let ?c = "[(photo_request, ok_response)]"
  let ?st = "[(''yaki-image-cache-v1'', ?c)]"
  have h1: "method_of photo_request_fragment = ''GET''"
    by (simp add: photo_request_fragment_def)
  have h2: "isImageRequest example_platform photo_request_fragment = Inr True" by code_simp
  have h3: "(''yaki-image-cache-v1'', ?c) \<in> set ?st" by simp
  have h4: "(photo_request, ok_response) \<in> set ?c" by simp
  have h5: "requestMatches example_platform photo_request_fragment photo_request ok_response"
    by code_simp
  have m: "caches_match example_platform ?st photo_request_fragment = Some ok_response"
    using h5 by simp
  from cache_hit_served_without_network [OF h1 h2 h3 h4 h5, of "\<lambda>x. Rejected" Written] m h1 h2 h5
  show ?thesis by auto
qed

text \<open>
  An entry whose response varies on \<open>Accept\<close> is no hit for a request with another
  \<open>Accept\<close> header, although the URLs are the same: the handler goes to the network.
\<close>

lemma vary_mismatch_is_a_miss:
  "caches_match example_platform
       [(''yaki-image-cache-v1'', [(photo_request, negotiated_response)])] photo_request_webp = None \<and>
   fetch_handler example_platform (\<lambda>x. Rejected) Written
       [(''yaki-image-cache-v1'', [(photo_request, negotiated_response)])] photo_request_webp =
     (Responded (Some synthetic_404),
      [(''yaki-image-cache-v1'', [(photo_request, negotiated_response)])],
      [Network_fetch photo_request_webp, Console_error FetchFailed])"
  by code_simp

text \<open>
  Claim C5. On a miss, when the network call rejects, the handler resolves with a
  response of status 404 and empty body; it neither throws nor touches the storage.
\<close>

theorem fetch_failure_gives_404:
  assumes "method_of req = ''GET''" and "isImageRequest P req = Inr True"
    and "caches_match P st req = None" and "net req = Rejected"
  shows "\<exists>r. outcome_of (fetch_handler P net wr st req) = Responded (Some r) \<and>
             status r = 404 \<and> body r = [] \<and>
             storage_of (fetch_handler P net wr st req) = st"
  using assms
  by (simp add: fetch_handler_def on_cache_miss_def outcome_of_def storage_of_def
      synthetic_404_def)

theorem fetch_failure_gives_404_witness:
  "method_of shop_request = ''GET'' \<and>
   isImageRequest example_platform shop_request = Inr True \<and>
   caches_match example_platform [] shop_request = None \<and>
   (\<exists>r. outcome_of (fetch_handler example_platform (\<lambda>x. Rejected) Written [] shop_request)
           = Responded (Some r) \<and> status r = 404 \<and> body r = [] \<and>
         storage_of (fetch_handler example_platform (\<lambda>x. Rejected) Written [] shop_request) = [])"
proof -
  have h1: "method_of shop_request = ''GET''" by (simp add: shop_request_def)
  have h2: "isImageRequest example_platform shop_request = Inr True" by code_simp
  have h3: "caches_match example_platform [] shop_request = None" by simp
  have h4: "(\<lambda>x. Rejected) shop_request = Rejected" by simp
  from fetch_failure_gives_404 [OF h1 h2 h3 h4, of Written] h1 h2 h3
  show ?thesis by blast
qed

text \<open>
  Claim C6. On a miss, when the network call resolves with no response or with a status
  other than 200, the handler resolves with exactly that value, the storage is
  unchanged, and the network call is its only effect: nothing is put into a cache.
\<close>

theorem non_200_passed_through_uncached:
  assumes "method_of req = ''GET''" and "isImageRequest P req = Inr True"
    and "caches_match P st req = None" and "net req = Resolved ro"
    and "ro = None \<or> (\<exists>r. ro = Some r \<and> status r \<noteq> 200)"
  shows "fetch_handler P net wr st req = (Responded ro, st, [Network_fetch req])"
  using assms
  by (auto simp: fetch_handler_def on_cache_miss_def on_network_response_def)

text \<open>A redirect from an allowed domain, and an absent response.\<close>

theorem non_200_passed_through_uncached_witness:
  "method_of github_request = ''GET'' \<and>
   isImageRequest example_platform github_request = Inr True \<and>
   isAllowedDomain example_platform (url github_request) \<and>
   status moved_response \<noteq> 200 \<and>
   fetch_handler example_platform (\<lambda>x. Resolved (Some moved_response)) Written [] github_request =
     (Responded (Some moved_response), [], [Network_fetch github_request]) \<and>
   fetch_handler example_platform (\<lambda>x. Resolved None) Written [] github_request =
     (Responded None, [], [Network_fetch github_request])"
proof -
  have h1: "method_of github_request = ''GET''" by (simp add: github_request_def)
  have h2: "isImageRequest example_platform github_request = Inr True" by code_simp
  have h3: "caches_match example_platform [] github_request = None" by simp
  have h4: "(\<lambda>x. Resolved (Some moved_response)) github_request = Resolved (Some moved_response)"
    by simp
  have s: "status moved_response \<noteq> 200" by (simp add: moved_response_def)
  then have h5: "Some moved_response = None \<or>
      (\<exists>r. Some moved_response = Some r \<and> status r \<noteq> 200)" by simp
  have h4': "(\<lambda>x. Resolved None) github_request = Resolved None" by simp
  have h5': "(None :: response option) = None \<or> (\<exists>r. None = Some r \<and> status r \<noteq> 200)"
    by simp
  have t: "isAllowedDomain example_platform (url github_request)" by code_simp
  from non_200_passed_through_uncached [OF h1 h2 h3 h4 h5, of Written]
    non_200_passed_through_uncached [OF h1 h2 h3 h4' h5', of Written] h1 h2 s t
  show ?thesis by blast
qed

text \<open>
  Claim C1 wants a 200 response never stored when the request's URL is not accepted by
  \<open>isAllowedDomain\<close> and is not of the worker's own origin. The handler's second test
  is \<open>request.url.startsWith(self.location.origin)\<close>: it compares characters, not
  origins. The worker of \<open>https://shop.example\<close> gets a request for
  \<open>https://shop.example.evil.com/a.png\<close>. The URL's origin is
  \<open>https://shop.example.evil.com\<close>, which is not the worker's, and \<open>isAllowedDomain\<close>
  answers \<open>false\<close> (where it compares the two origins for equality); but the URL string
  starts with the worker's origin, and the response is put into the cache.
\<close>

theorem lookalike_origin_is_cached:
  "parseURL example_platform (url lookalike_request) =
     Some \<lparr>origin = ''https://shop.example.evil.com'', hostname = ''shop.example.evil.com'',
           pathname = ''/a.png''\<rparr> \<and>
   ''https://shop.example.evil.com'' \<noteq> self_origin example_platform \<and>
   isAllowedDomain example_platform (url lookalike_request) = False \<and>
   startsWith (url lookalike_request) (self_origin example_platform) = True \<and>
   status ok_response = 200 \<and>
   caches_match example_platform [] lookalike_request = None \<and>
   fetch_handler example_platform (\<lambda>x. Resolved (Some ok_response)) Written [] lookalike_request =
     (Responded (Some ok_response),
      [(''yaki-image-cache-v1'', [(lookalike_request, ok_response)])],
      [Network_fetch lookalike_request,
       Cache_put ''yaki-image-cache-v1'' lookalike_request ok_response,
       Console_log (Cached (shortened (url lookalike_request)))])"
  by code_simp

text \<open>
  Claim C8, as the specification words it, has a failed cache write logged. The write
  chain has no rejection handler and no log call for a failure. With a 200 response
  from an allowed domain and a \<open>cache.put\<close> that rejects, the effects are the network
  call, the put and the line that says the response was cached: the same effects as in
  the run whose write succeeds, although here the cache stays empty.
\<close>

theorem cache_write_failure_is_not_logged:
  "effects_of (fetch_handler example_platform (\<lambda>x. Resolved (Some ok_response)) PutRejected
       [] github_request) =
     [Network_fetch github_request,
      Cache_put ''yaki-image-cache-v1'' github_request ok_response,
      Console_log (Cached (shortened (url github_request)))] \<and>
   effects_of (fetch_handler example_platform (\<lambda>x. Resolved (Some ok_response)) PutRejected
       [] github_request) =
     effects_of (fetch_handler example_platform (\<lambda>x. Resolved (Some ok_response)) Written
       [] github_request) \<and>
   storage_of (fetch_handler example_platform (\<lambda>x. Resolved (Some ok_response)) PutRejected
       [] github_request) = [(''yaki-image-cache-v1'', [])] \<and>
   storage_of (fetch_handler example_platform (\<lambda>x. Resolved (Some ok_response)) Written
       [] github_request) = [(''yaki-image-cache-v1'', [(github_request, ok_response)])]"
  by code_simp

text \<open>
  Claim C8, amended. In a network fill (miss, status 200, trusted URL) a failed cache
  write is dropped without the worker logging it. When \<open>cache.put\<close> rejects, the run has
  exactly the effects of the run whose write succeeds: the network call, the put, and
  the \<open>Cached\<close> console line, which is printed all the same; the cache has been opened
  and nothing is in it that was not there. When \<open>caches.open\<close> rejects, the network call
  is the only effect and the storage is untouched. Neither run writes an error to the
  console, and both resolve with the network's response, as the successful run does.
\<close>

theorem cache_write_failure_discarded:
  assumes "method_of req = ''GET''" and "isImageRequest P req = Inr True"
    and "caches_match P st req = None" and "net req = Resolved (Some r)" and "status r = 200"
    and "isAllowedDomain P (url req) \<or> startsWith (url req) (self_origin P)"
  shows "fetch_handler P net PutRejected st req =
           (Responded (Some r), caches_open st CACHE_NAME,
            [Network_fetch req, Cache_put CACHE_NAME req r,
             Console_log (Cached (shortened (url req)))]) \<and>
         fetch_handler P net OpenRejected st req =
           (Responded (Some r), st, [Network_fetch req]) \<and>
         outcome_of (fetch_handler P net Written st req) = Responded (Some r) \<and>
         effects_of (fetch_handler P net Written st req) =
           [Network_fetch req, Cache_put CACHE_NAME req r,
            Console_log (Cached (shortened (url req)))] \<and>
         (\<forall>wr m. Console_error m \<notin> set (effects_of (fetch_handler P net wr st req)))"
proof -
  have run: "fetch_handler P net wr st req =
      (let (st', es) = store_response P wr st req r
       in (Responded (Some r), st', Network_fetch req # es))" for wr
    using assms
    by (auto simp: fetch_handler_def on_cache_miss_def on_network_response_def clone_def
        split: prod.splits)
  have put: "fetch_handler P net PutRejected st req =
      (Responded (Some r), caches_open st CACHE_NAME,
       [Network_fetch req, Cache_put CACHE_NAME req r,
        Console_log (Cached (shortened (url req)))])"
    by (simp add: run store_response_def)
  have opn: "fetch_handler P net OpenRejected st req =
      (Responded (Some r), st, [Network_fetch req])"
    by (simp add: run store_response_def)
  have wrt: "fetch_handler P net Written st req =
      (Responded (Some r), caches_put P (caches_open st CACHE_NAME) CACHE_NAME req r,
       [Network_fetch req, Cache_put CACHE_NAME req r,
        Console_log (Cached (shortened (url req)))])"
    by (simp add: run store_response_def)
  have quiet: "Console_error m \<notin> set (effects_of (fetch_handler P net wr st req))" for wr m
    by (cases wr) (simp_all add: put opn wrt effects_of_def)
  from put opn wrt quiet show ?thesis
    by (simp add: outcome_of_def effects_of_def)
qed

text \<open>A 200 response from an allowed domain, with the put rejecting and with the open rejecting.\<close>

theorem cache_write_failure_discarded_witness:
  "method_of github_request = ''GET'' \<and>
   isImageRequest example_platform github_request = Inr True \<and>
   caches_match example_platform [] github_request = None \<and>
   status ok_response = 200 \<and>
   isAllowedDomain example_platform (url github_request) \<and>
   fetch_handler example_platform (\<lambda>x. Resolved (Some ok_response)) PutRejected [] github_request =
     (Responded (Some ok_response), [(''yaki-image-cache-v1'', [])],
      [Network_fetch github_request,
       Cache_put ''yaki-image-cache-v1'' github_request ok_response,
       Console_log (Cached (shortened (url github_request)))]) \<and>
   fetch_handler example_platform (\<lambda>x. Resolved (Some ok_response)) OpenRejected [] github_request =
     (Responded (Some ok_response), [], [Network_fetch github_request])"
proof -
  have h1: "method_of github_request = ''GET''" by (simp add: github_request_def)
  have h2: "isImageRequest example_platform github_request = Inr True" by code_simp
  have h3: "caches_match example_platform [] github_request = None" by simp
  have h4: "(\<lambda>x. Resolved (Some ok_response)) github_request = Resolved (Some ok_response)"
    by simp
  have h5: "status ok_response = 200" by (simp add: ok_response_def)
  have t: "isAllowedDomain example_platform (url github_request)" by code_simp
  then have h6: "isAllowedDomain example_platform (url github_request) \<or>
      startsWith (url github_request) (self_origin example_platform)" by simp
  have o: "caches_open [] CACHE_NAME = [(''yaki-image-cache-v1'', [])]"
    by (simp add: caches_open_def caches_keys_def CACHE_NAME_def)
  from cache_write_failure_discarded [OF h1 h2 h3 h4 h5 h6] h1 h2 h3 h5 t o
  show ?thesis by (simp add: CACHE_NAME_def)
qed

section \<open>Activation\<close>

lemma fold_caches_delete:
  "fold (\<lambda>name s. caches_delete s name) names st = filter (\<lambda>(n, c). n \<notin> set names) st"
proof (induction names arbitrary: st)
  case Nil
  show ?case by simp
next
  case (Cons a names)
  have "filter (\<lambda>(n, c). n \<notin> set names) (caches_delete st a)
          = filter (\<lambda>(n, c). n \<notin> set (a # names)) st"
    unfolding caches_delete_def filter_filter
    by (rule filter_cong) auto
  with Cons.IH show ?case by simp
qed

lemma distinct_filter_eq_le1: "distinct xs \<Longrightarrow> length (filter (\<lambda>n. n = a) xs) \<le> 1"
proof (induction xs)
  case Nil
  show ?case by simp
next
  case (Cons x xs)
  show ?case
  proof (cases "x = a")
    case True
    with Cons.prems have "a \<notin> set xs" by simp
    then have "filter (\<lambda>n. n = a) xs = []" by (auto simp: filter_empty_conv)
    with True show ?thesis by simp
  next
    case False
    with Cons show ?thesis by simp
  qed
qed

text \<open>
  Claim C7. Over a storage whose cache names are distinct, activation removes exactly
  the caches whose name starts with \<open>yaki-image-cache-\<close> and is not \<open>CACHE_NAME\<close>; every
  other cache stays, with its entries and in its place; and afterwards at most one
  cache name starts with the prefix.
\<close>

theorem activate_prunes_old_generations:
  assumes "distinct (caches_keys st)"
  shows "fst (activate_handler st) =
           filter (\<lambda>(n, c). \<not> (startsWith n ''yaki-image-cache-'' \<and> n \<noteq> CACHE_NAME)) st
         \<and> length (filter (\<lambda>n. startsWith n ''yaki-image-cache-'')
                    (caches_keys (fst (activate_handler st)))) \<le> 1"
proof -
  let ?old = "\<lambda>n. startsWith n ''yaki-image-cache-'' \<and> n \<noteq> CACHE_NAME"
  let ?st' = "fst (activate_handler st)"
  have names: "set (old_caches (caches_keys st)) = {n \<in> fst ` set st. ?old n}"
    by (auto simp: old_caches_def caches_keys_def)
  have "?st' = filter (\<lambda>(n, c). n \<notin> set (old_caches (caches_keys st))) st"
    by (simp add: activate_handler_def Let_def fold_caches_delete)
  also have "\<dots> = filter (\<lambda>(n, c). \<not> ?old n) st"
    by (rule filter_cong) (auto simp: names intro: rev_image_eqI)
  finally have eq: "?st' = filter (\<lambda>(n, c). \<not> ?old n) st" .
  have keys: "caches_keys ?st' = filter (\<lambda>n. \<not> ?old n) (caches_keys st)"
    unfolding eq caches_keys_def by (induction st) auto
  have "filter (\<lambda>n. startsWith n ''yaki-image-cache-'') (caches_keys ?st')
          = filter (\<lambda>n. n = CACHE_NAME)
              (filter (\<lambda>n. startsWith n ''yaki-image-cache-'') (caches_keys st))"
    unfolding keys filter_filter by (rule filter_cong) auto
  also have "length \<dots> \<le> 1"
  proof -
    have "distinct (filter (\<lambda>n. startsWith n ''yaki-image-cache-'') (caches_keys st))"
      using assms by simp
    then show ?thesis by (rule distinct_filter_eq_le1)
  qed
  finally show ?thesis using eq by simp
qed

text \<open>Two superseded generations go; the current one and an unrelated cache stay.\<close>

theorem activate_prunes_old_generations_witness:
  "distinct (caches_keys
      [(''yaki-image-cache-v0'', [(github_request, ok_response)]),
       (''fonts'', [(shop_request, ok_response)]),
       (''yaki-image-cache-v1'', [(photo_request, ok_response)]),
       (''yaki-image-cache-v2'', [])]) \<and>
   fst (activate_handler
      [(''yaki-image-cache-v0'', [(github_request, ok_response)]),
       (''fonts'', [(shop_request, ok_response)]),
       (''yaki-image-cache-v1'', [(photo_request, ok_response)]),
       (''yaki-image-cache-v2'', [])]) =
     [(''fonts'', [(shop_request, ok_response)]),
      (''yaki-image-cache-v1'', [(photo_request, ok_response)])]"
proof -
  let ?st = "[(''yaki-image-cache-v0'', [(github_request, ok_response)]),
       (''fonts'', [(shop_request, ok_response)]),
       (''yaki-image-cache-v1'', [(photo_request, ok_response)]),
       (''yaki-image-cache-v2'', [])]"
  have h: "distinct (caches_keys ?st)" by (simp add: caches_keys_def)
  have f: "filter (\<lambda>(n, c). \<not> (startsWith n ''yaki-image-cache-'' \<and> n \<noteq> CACHE_NAME)) ?st
      = [(''fonts'', [(shop_request, ok_response)]),
         (''yaki-image-cache-v1'', [(photo_request, ok_response)])]"
    by (simp add: CACHE_NAME_def)
  from activate_prunes_old_generations [OF h] f h show ?thesis by simp
qed

section \<open>Control messages\<close>

text \<open>
  Claim C10. A \<open>getCacheStats\<close> message that arrives when no cache is named
  \<open>CACHE_NAME\<close> is answered with \<open>cacheStats\<close> and count 0, and leaves behind a new,
  empty cache of that name after the caches that were there.
\<close>

theorem getCacheStats_creates_empty_generation:
  assumes "CACHE_NAME \<notin> set (caches_keys st)"
  shows "message_handler st (Some ''getCacheStats'') =
           (st @ [(''yaki-image-cache-v1'', [])], [Post_message (CacheStats 0)])"
proof -
  have "map_of st CACHE_NAME = None"
    using assms by (simp add: caches_keys_def map_of_eq_None_iff)
  then have "cache_of (st @ [(CACHE_NAME, [])]) CACHE_NAME = []"
    by (simp add: cache_of_def map_add_def)
  then show ?thesis
    using assms
    by (simp add: message_handler_def caches_open_def cache_keys_def CACHE_NAME_def)
qed

theorem getCacheStats_creates_empty_generation_witness:
  "CACHE_NAME \<notin> set (caches_keys [(''fonts'', [(shop_request, ok_response)])]) \<and>
   message_handler [(''fonts'', [(shop_request, ok_response)])]
       (Some ''getCacheStats'') =
     ([(''fonts'', [(shop_request, ok_response)]), (''yaki-image-cache-v1'', [])],
      [Post_message (CacheStats 0)])"
proof -
  have h: "CACHE_NAME \<notin> set (caches_keys [(''fonts'', [(shop_request, ok_response)])])"
    by (simp add: CACHE_NAME_def caches_keys_def)
  show ?thesis
    using h getCacheStats_creates_empty_generation [OF h] by simp
qed

end
